theory Spec2Isabelle
  imports
    Main
    "HOL-Library.FSet"
    "HOL-Library.Finite_Map"
    "HOL-Library.Char_ord"
    "HOL-Library.List_Lexorder"
    "HOL-Library.Multiset"
begin

section \<open>Functional options for an authenticated HTTP request (main.go)\<close>

text \<open>
  The program is one Go file. \<^verbatim>\<open>NewOptReqParams\<close> builds a parameter struct from
  defaults and a list of option closures; \<^verbatim>\<open>CustomHTTPRequest\<close> reads the struct
  through a pointer, obtains an authorization string, builds a request, adds three
  headers and the query parameters, and sends it.

  Go strings are byte sequences, so they are \<^typ>\<open>string\<close> here. Go maps are finite and
  unordered, so they are finite maps; a nil map or nil interface is \<open>None\<close>.
\<close>

subsection \<open>Data\<close>

text \<open>
  An \<^verbatim>\<open>io.Reader\<close>, identified with the bytes it still yields: reading takes bytes
  from the front, and every holder of the reader sees what is left. Readers are live
  ones; a nil pointer stored in the interface is not modelled.
\<close>

datatype Reader = Reader string

definition read_from :: "nat \<Rightarrow> Reader option \<Rightarrow> Reader option" where
  "read_from n b = (case b of None \<Rightarrow> None | Some (Reader bytes) \<Rightarrow> Some (Reader (drop n bytes)))"

text \<open>
  A Go \<^verbatim>\<open>error\<close>, identified with the text of its \<^verbatim>\<open>Error()\<close> method, which is
  all that \<^verbatim>\<open>%v\<close> prints. \<^verbatim>\<open>errors.New\<close> makes an \<^verbatim>\<open>errorString\<close>.
\<close>

datatype error = errorString (Error: string)

definition errors_New :: "string \<Rightarrow> error" where
  "errors_New text = errorString text"

text \<open>A \<^verbatim>\<open>context.Context\<close>; the program only passes it on.\<close>

datatype Context = Background | Derived nat

record OptReqParams =
  httpMethod :: string
  body :: "Reader option"
  useInvalidToken :: bool
  queryParam :: "(string, string) fmap option"
  acceptHeader :: string

text \<open>
  \<^verbatim>\<open>type OptReqParamsOption func(*OptReqParams)\<close>. The six closures of the file, each
  with the arguments it captures; \<open>apply_option\<close> is the closure's body acting on the
  struct behind the pointer.
\<close>

datatype OptReqParamsOption =
    WithMethod string
  | WithBody "Reader option"
  | WithUseInvalidToken bool
  | WithQueryParam "(string, string) fmap option"
  | WithAcceptHeader string
  | WithTwoValues string string

fun apply_option :: "OptReqParamsOption \<Rightarrow> OptReqParams \<Rightarrow> OptReqParams" where
  "apply_option (WithMethod m) s = s\<lparr>httpMethod := m\<rparr>"
| "apply_option (WithBody b) s = s\<lparr>body := b\<rparr>"
| "apply_option (WithUseInvalidToken u) s = s\<lparr>useInvalidToken := u\<rparr>"
| "apply_option (WithQueryParam q) s = s\<lparr>queryParam := q\<rparr>"
| "apply_option (WithAcceptHeader a) s = s\<lparr>acceptHeader := a\<rparr>"
| "apply_option (WithTwoValues a m) s = (s\<lparr>httpMethod := m\<rparr>)\<lparr>acceptHeader := a\<rparr>"

text \<open>\<^verbatim>\<open>&OptReqParams{}\<close>: every field at its zero value.\<close>

definition zero_OptReqParams :: OptReqParams where
  "zero_OptReqParams =
     \<lparr>httpMethod = [], body = None, useInvalidToken = False, queryParam = None,
      acceptHeader = []\<rparr>"

definition MethodGet :: string where
  "MethodGet = ''GET''"

definition NewOptReqParams :: "OptReqParamsOption list \<Rightarrow> OptReqParams" where
  "NewOptReqParams options =
     foldl (\<lambda>params o'. apply_option o' params)
       (zero_OptReqParams
          \<lparr>httpMethod := MethodGet,
           useInvalidToken := False,
           acceptHeader := ''application/json''\<rparr>)
       options"

subsection \<open>Last writer per field, in the specification's words\<close>

text \<open>
  What a mutator assigns to a field: the value, or \<open>None\<close> when it leaves the field
  alone. \<open>last_writer w os\<close> is the value assigned by the last mutator of \<open>os\<close> that
  touches the field described by \<open>w\<close>.
\<close>

fun writes_httpMethod :: "OptReqParamsOption \<Rightarrow> string option" where
  "writes_httpMethod (WithMethod m) = Some m"
| "writes_httpMethod (WithTwoValues a m) = Some m"
| "writes_httpMethod _ = None"

fun writes_body :: "OptReqParamsOption \<Rightarrow> Reader option option" where
  "writes_body (WithBody b) = Some b"
| "writes_body _ = None"

fun writes_useInvalidToken :: "OptReqParamsOption \<Rightarrow> bool option" where
  "writes_useInvalidToken (WithUseInvalidToken u) = Some u"
| "writes_useInvalidToken _ = None"

fun writes_queryParam :: "OptReqParamsOption \<Rightarrow> (string, string) fmap option option" where
  "writes_queryParam (WithQueryParam q) = Some q"
| "writes_queryParam _ = None"

fun writes_acceptHeader :: "OptReqParamsOption \<Rightarrow> string option" where
  "writes_acceptHeader (WithAcceptHeader a) = Some a"
| "writes_acceptHeader (WithTwoValues a m) = Some a"
| "writes_acceptHeader _ = None"

definition last_writer :: "('o \<Rightarrow> 'v option) \<Rightarrow> 'o list \<Rightarrow> 'v option" where
  "last_writer w os =
     (case List.map_filter w os of [] \<Rightarrow> None | v # vs \<Rightarrow> Some (last (v # vs)))"

definition field_after :: "'v \<Rightarrow> 'v option \<Rightarrow> 'v" where
  "field_after dflt written = (case written of None \<Rightarrow> dflt | Some v \<Rightarrow> v)"

subsection \<open>Requests, and the library the executor calls\<close>

text \<open>
  \<^verbatim>\<open>url.Values\<close> and \<^verbatim>\<open>http.Header\<close> are both \<^verbatim>\<open>map[string][]string\<close>. Reading
  a missing key gives the nil slice; \<^verbatim>\<open>Add\<close> appends to the slice stored at the key.
  (\<^verbatim>\<open>Header.Add\<close> first puts the key in canonical MIME form; the three keys the
  executor adds are canonical already.)
\<close>

type_synonym Values = "(string, string list) fmap"

definition Get_all :: "Values \<Rightarrow> string \<Rightarrow> string list" where
  "Get_all v key = (case fmlookup v key of None \<Rightarrow> [] | Some vs \<Rightarrow> vs)"

definition Add :: "string \<Rightarrow> string \<Rightarrow> Values \<Rightarrow> Values" where
  "Add key val v = fmupd key (Get_all v key @ [val]) v"

text \<open>
  \<^verbatim>\<open>url.QueryEscape\<close>: letters, digits and \<^verbatim>\<open>-_.~\<close> stay, a space becomes \<^verbatim>\<open>+\<close>,
  every other byte becomes \<^verbatim>\<open>%\<close> and two upper-case hex digits.
\<close>

definition shouldEscape :: "char \<Rightarrow> bool" where
  "shouldEscape c =
     (if (CHR ''a'' \<le> c \<and> c \<le> CHR ''z'') \<or> (CHR ''A'' \<le> c \<and> c \<le> CHR ''Z'')
          \<or> (CHR ''0'' \<le> c \<and> c \<le> CHR ''9'') then False
      else if c \<in> set ''-_.~'' then False
      else True)"

definition upperhex :: "nat \<Rightarrow> char" where
  "upperhex n = ''0123456789ABCDEF'' ! n"

definition escape_byte :: "char \<Rightarrow> string" where
  "escape_byte c =
     (if c = CHR '' '' then ''+''
      else if shouldEscape c
        then [CHR ''%'', upperhex (of_char c div 16), upperhex (of_char c mod 16)]
      else [c])"

definition QueryEscape :: "string \<Rightarrow> string" where
  "QueryEscape s = concat (map escape_byte s)"

text \<open>
  \<^verbatim>\<open>Values.Encode\<close>: the empty string for an empty map; otherwise the keys in sorted
  order (Go compares strings bytewise), and for each key its values in slice order, each
  written as \<^verbatim>\<open>key=value\<close> with both sides escaped, an \<^verbatim>\<open>&\<close> before every
  pair but the first.
\<close>

definition Encode :: "Values \<Rightarrow> string" where
  "Encode v =
     (if fmdom v = {||} then []
      else foldl (\<lambda>buf k.
             let vs = Get_all v k; keyEscaped = QueryEscape k
             in foldl (\<lambda>buf val.
                  (if buf \<noteq> [] then buf @ ''&'' else buf)
                    @ keyEscaped @ ''='' @ QueryEscape val)
                buf vs)
           [] (sorted_list_of_fset (fmdom v)))"

record URL =
  Scheme :: string
  Host :: string
  Path :: string
  RawQuery :: string
  Fragment :: string

record Request =
  Method :: string
  URL :: URL
  Header :: Values
  Body :: "Reader option"
  Ctx :: Context

record Response =
  StatusCode :: int
  ResponseBody :: string

record LoginResponse =
  Token :: string

text \<open>
  What the file calls and does not define. \<open>MyLoginAPI\<close> is the login collaborator.
  \<open>request_url\<close> stands for the checks of \<^verbatim>\<open>http.NewRequestWithContext\<close> (valid
  method, non-nil context, \<^verbatim>\<open>url.Parse\<close>): the error it returns, or the parsed URL.
  \<open>ParseQuery\<close> is what \<^verbatim>\<open>URL.Query()\<close> reads out of a raw query string.
  \<open>client_Do\<close> is \<^verbatim>\<open>http.Client{}.Do\<close>: the network. While it runs, the transport
  reads the request's body; \<open>body_read\<close> is the number of bytes it takes.
\<close>

record world =
  MyLoginAPI :: "Context \<Rightarrow> string \<Rightarrow> string \<Rightarrow> error + LoginResponse"
  request_url :: "Context \<Rightarrow> string \<Rightarrow> string \<Rightarrow> error + URL"
  ParseQuery :: "string \<Rightarrow> Values"
  client_Do :: "Request \<Rightarrow> error + Response"
  body_read :: "Request \<Rightarrow> nat"

text \<open>
  \<^verbatim>\<open>http.NewRequestWithContext\<close>: an empty method means GET; on success the request
  has the method, the parsed URL, a fresh empty header, the body and the context.
\<close>

definition NewRequestWithContext ::
  "world \<Rightarrow> Context \<Rightarrow> string \<Rightarrow> string \<Rightarrow> Reader option \<Rightarrow> error + Request" where
  "NewRequestWithContext w ctx method url body' =
     (let method = (if method = [] then ''GET'' else method)
      in case request_url w ctx method url of
           Inl err \<Rightarrow> Inl err
         | Inr u \<Rightarrow>
             Inr \<lparr>Method = method, URL = u, Header = fmempty, Body = body', Ctx = ctx\<rparr>)"

subsection \<open>The executor\<close>

text \<open>
  \<^verbatim>\<open>for k := range m\<close> visits every key of the map once, in an order the runtime
  chooses. The order is an argument of the model: a list \<open>ks\<close> with
  \<open>range_order m ks\<close>. \<open>index m k\<close> is \<^verbatim>\<open>m[k]\<close>, the empty string for a missing key.
\<close>

definition range_order :: "(string, string) fmap \<Rightarrow> string list \<Rightarrow> bool" where
  "range_order m ks \<longleftrightarrow> distinct ks \<and> fset_of_list ks = fmdom m"

definition index :: "(string, string) fmap \<Rightarrow> string \<Rightarrow> string" where
  "index m k = (case fmlookup m k of None \<Rightarrow> [] | Some v \<Rightarrow> v)"

text \<open>
  A run of the executor gives what it returns or the panic that ends it, the calls it
  made to the outside in order, and the struct behind \<open>p\<close> as the run leaves it. The
  executor assigns to no field. The request's body is the reader \<open>p.body\<close> holds
  (line 102 passes \<^verbatim>\<open>p.body\<close> on), so what \<^verbatim>\<open>client.Do\<close> reads from the request is
  gone from \<open>p.body\<close> too.
\<close>

datatype panic = NilPointerDereference

datatype outcome = Panic panic | Returned "error + Response"

datatype call =
    CallMyLoginAPI Context string string
  | CallNewRequestWithContext Context string string "Reader option"
  | CallDo Request

record execution =
  result :: outcome
  calls :: "call list"
  params_after :: "OptReqParams option"

text \<open>Lines 107 to 110: the three \<^verbatim>\<open>req.Header.Add\<close> calls.\<close>

definition add_headers :: "OptReqParams \<Rightarrow> string \<Rightarrow> Request \<Rightarrow> Request" where
  "add_headers p authString req =
     req\<lparr>Header :=
       Add ''Content-Type'' ''application/json''
         (Add ''Authorization'' authString
           (Add ''Accept'' (acceptHeader p) (Header req)))\<rparr>"

text \<open>Lines 112 to 119: the query parameters, visited in the order \<open>ks\<close>.\<close>

definition build_query :: "world \<Rightarrow> string list \<Rightarrow> OptReqParams \<Rightarrow> Request \<Rightarrow> Request" where
  "build_query w ks p req =
     (case queryParam p of
        None \<Rightarrow> req
      | Some m \<Rightarrow>
          (let q = foldl (\<lambda>q k. Add k (index m k) q) (ParseQuery w (RawQuery (URL req))) ks
           in req\<lparr>URL := (URL req)\<lparr>RawQuery := Encode q\<rparr>\<rparr>))"

text \<open>
  \<^verbatim>\<open>CustomHTTPRequest(ctx, url, email, passwd, p)\<close>. The first statement reads
  \<^verbatim>\<open>p.useInvalidToken\<close>, which panics when \<open>p\<close> is nil.
\<close>

definition CustomHTTPRequest ::
  "world \<Rightarrow> string list \<Rightarrow> Context \<Rightarrow> string \<Rightarrow> string \<Rightarrow> string \<Rightarrow> OptReqParams option
     \<Rightarrow> execution" where
  "CustomHTTPRequest w ks ctx url email passwd p =
     (case p of
        None \<Rightarrow> \<lparr>result = Panic NilPointerDereference, calls = [], params_after = None\<rparr>
      | Some s \<Rightarrow>
          (let auth =
             (if useInvalidToken s then (Inr (''Bearer '' @ ''Invalid Token''), [])
              else (case MyLoginAPI w ctx email passwd of
                      Inl err \<Rightarrow>
                        (Inl (errors_New
                           (''error in login with user provided credentials '' @ Error err)),
                         [CallMyLoginAPI ctx email passwd])
                    | Inr resp \<Rightarrow>
                        (Inr (''Bearer '' @ Token resp), [CallMyLoginAPI ctx email passwd])))
           in case auth of
                (Inl err, log) \<Rightarrow>
                  \<lparr>result = Returned (Inl err), calls = log, params_after = Some s\<rparr>
              | (Inr authString, log) \<Rightarrow>
                  (case NewRequestWithContext w ctx (httpMethod s) url (body s) of
                     Inl err \<Rightarrow>
                       \<lparr>result = Returned (Inl err),
                        calls = log @ [CallNewRequestWithContext ctx (httpMethod s) url (body s)],
                        params_after = Some s\<rparr>
                   | Inr req0 \<Rightarrow>
                       (let req = build_query w ks s (add_headers s authString req0)
                        in \<lparr>result =
                              Returned (case client_Do w req of
                                          Inl err \<Rightarrow> Inl err
                                        | Inr res \<Rightarrow> Inr res),
                            calls = log @ [CallNewRequestWithContext ctx (httpMethod s) url (body s),
                                           CallDo req],
                            params_after =
                              Some (s\<lparr>body := read_from (body_read w req) (body s)\<rparr>)\<rparr>))))"

subsection \<open>The query string, in the specification's words\<close>

text \<open>
  The key/value pairs a \<open>Values\<close> holds, keys ascending and the values of one key in
  slice order; and the wire form of a list of pairs: each pair written
  \<^verbatim>\<open>key=value\<close> with both sides percent-encoded, the pairs joined by \<^verbatim>\<open>&\<close>.
\<close>

definition pairs :: "Values \<Rightarrow> (string \<times> string) list" where
  "pairs v = concat (map (\<lambda>k. map (Pair k) (Get_all v k)) (sorted_list_of_fset (fmdom v)))"

fun join :: "string \<Rightarrow> string list \<Rightarrow> string" where
  "join sep [] = []"
| "join sep [x] = x"
| "join sep (x # y # ys) = x @ sep @ join sep (y # ys)"

definition segment :: "string \<times> string \<Rightarrow> string" where
  "segment kv = QueryEscape (fst kv) @ ''='' @ QueryEscape (snd kv)"

definition encode_pairs :: "(string \<times> string) list \<Rightarrow> string" where
  "encode_pairs ps = join ''&'' (map segment ps)"

text \<open>One turn of the inner loop of \<^verbatim>\<open>Encode\<close>, on the buffer.\<close>

definition write_pair :: "string \<Rightarrow> string \<times> string \<Rightarrow> string" where
  "write_pair buf kv = (if buf \<noteq> [] then buf @ ''&'' else buf) @ segment kv"

subsection \<open>The calls of \<^verbatim>\<open>main\<close>, against a stub of the outside\<close>

text \<open>
  \<^verbatim>\<open>url.Parse("some_url")\<close> gives a URL with only a path. The stub's three flags say
  whether login, request construction and the network succeed; its URL has no query, so
  \<open>ParseQuery\<close> has nothing to return; its transport reads the whole body.
\<close>

definition some_url :: URL where
  "some_url = \<lparr>Scheme = [], Host = [], Path = ''some_url'', RawQuery = [], Fragment = []\<rparr>"

definition stub_world :: "bool \<Rightarrow> bool \<Rightarrow> bool \<Rightarrow> world" where
  "stub_world login_ok url_ok do_ok =
     \<lparr>MyLoginAPI = (\<lambda>ctx email passwd.
        if login_ok then Inr \<lparr>Token = ''tok''\<rparr> else Inl (errorString ''denied'')),
      request_url = (\<lambda>ctx method url.
        if url_ok then Inr some_url else Inl (errorString ''parse error'')),
      ParseQuery = (\<lambda>raw. fmempty),
      client_Do = (\<lambda>req.
        if do_ok then Inr \<lparr>StatusCode = 200, ResponseBody = []\<rparr>
        else Inl (errorString ''connection refused'')),
      body_read = (\<lambda>req.
        case Body req of None \<Rightarrow> 0 | Some (Reader bytes) \<Rightarrow> length bytes)\<rparr>"

text \<open>Lines 135 to 138: the map \<open>q\<close> and the parameters \<open>p\<close> of the second call.\<close>

definition main_query :: "(string, string) fmap" where
  "main_query = fmupd ''age'' ''10'' (fmupd ''name'' ''xyz'' fmempty)"

definition main_params :: OptReqParams where
  "main_params =
     NewOptReqParams [WithMethod ''POST'', WithBody None, WithQueryParam (Some main_query)]"

text \<open>The request the second call sends when login yields the token \<^verbatim>\<open>tok\<close>.\<close>

definition main_request :: Request where
  "main_request =
     \<lparr>Method = ''POST'',
      URL = some_url\<lparr>RawQuery := ''age=10&name=xyz''\<rparr>,
      Header = fmupd ''Content-Type'' [''application/json'']
                 (fmupd ''Authorization'' [''Bearer tok'']
                   (fmupd ''Accept'' [''application/json''] fmempty)),
      Body = None, Ctx = Background\<rparr>"

text \<open>The request a call with the default parameters sends, with the same token.\<close>

definition default_request :: Request where
  "default_request =
     \<lparr>Method = ''GET'',
      URL = some_url,
      Header = fmupd ''Content-Type'' [''application/json'']
                 (fmupd ''Authorization'' [''Bearer tok'']
                   (fmupd ''Accept'' [''application/json''] fmempty)),
      Body = None, Ctx = Background\<rparr>"


text \<open>The request sent for \<^verbatim>\<open>NewOptReqParams(WithUseInvalidToken(true))\<close>.\<close>

definition invalid_token_request :: Request where
  "invalid_token_request =
     \<lparr>Method = ''GET'',
      URL = some_url,
      Header = fmupd ''Content-Type'' [''application/json'']
                 (fmupd ''Authorization'' [''Bearer Invalid Token'']
                   (fmupd ''Accept'' [''application/json''] fmempty)),
      Body = None, Ctx = Background\<rparr>"

section \<open>The builder\<close>

lemma last_writer_Nil: "last_writer w [] = None"
  by (simp add: last_writer_def map_filter_simps)

lemma map_filter_snoc:
  "List.map_filter w (os @ [x]) =
     List.map_filter w os @ (case w x of None \<Rightarrow> [] | Some v \<Rightarrow> [v])"
  by (simp add: List.map_filter_def split: option.splits)

lemma last_writer_snoc:
  "last_writer w (os @ [x]) = (case w x of None \<Rightarrow> last_writer w os | Some v \<Rightarrow> Some v)"
  by (cases "w x"; cases "List.map_filter w os") (simp_all add: last_writer_def map_filter_snoc)

lemma foldl_last_writer:
  assumes step: "\<And>x s. f (ap x s) = field_after (f s) (w x)"
  shows "f (foldl (\<lambda>s x. ap x s) init os) = field_after (f init) (last_writer w os)"
proof (induction os rule: rev_induct)
  case Nil
  show ?case by (simp add: last_writer_Nil field_after_def)
next
  case (snoc x os)
  show ?case
  proof (cases "w x")
    case None
    with snoc step show ?thesis
      by (simp add: last_writer_snoc field_after_def)
  next
    case (Some v)
    with step show ?thesis
      by (simp add: last_writer_snoc field_after_def)
  qed
qed

lemma apply_option_httpMethod:
  "httpMethod (apply_option x s) = field_after (httpMethod s) (writes_httpMethod x)"
  by (cases x) (simp_all add: field_after_def)

lemma apply_option_body:
  "body (apply_option x s) = field_after (body s) (writes_body x)"
  by (cases x) (simp_all add: field_after_def)

lemma apply_option_useInvalidToken:
  "useInvalidToken (apply_option x s) =
     field_after (useInvalidToken s) (writes_useInvalidToken x)"
  by (cases x) (simp_all add: field_after_def)

lemma apply_option_queryParam:
  "queryParam (apply_option x s) = field_after (queryParam s) (writes_queryParam x)"
  by (cases x) (simp_all add: field_after_def)

lemma apply_option_acceptHeader:
  "acceptHeader (apply_option x s) = field_after (acceptHeader s) (writes_acceptHeader x)"
  by (cases x) (simp_all add: field_after_def)

text \<open>
  C8. With no mutators the builder returns exactly the defaults: method GET,
  useInvalidToken false, acceptHeader "application/json", body and queryParam nil.
\<close>

theorem NewOptReqParams_no_options:
  "NewOptReqParams [] =
     \<lparr>httpMethod = ''GET'', body = None, useInvalidToken = False, queryParam = None,
      acceptHeader = ''application/json''\<rparr>"
  by (simp add: NewOptReqParams_def zero_OptReqParams_def MethodGet_def)

text \<open>
  C4. For every list of mutators, each field of the built configuration is the value
  assigned by the last mutator in the list that touches the field, and the default when
  none does.
\<close>

theorem NewOptReqParams_last_writer_wins:
  "httpMethod (NewOptReqParams os) = field_after ''GET'' (last_writer writes_httpMethod os)
   \<and> body (NewOptReqParams os) = field_after None (last_writer writes_body os)
   \<and> useInvalidToken (NewOptReqParams os) =
       field_after False (last_writer writes_useInvalidToken os)
   \<and> queryParam (NewOptReqParams os) = field_after None (last_writer writes_queryParam os)
   \<and> acceptHeader (NewOptReqParams os) =
       field_after ''application/json'' (last_writer writes_acceptHeader os)"
proof -
  let ?d = "zero_OptReqParams
          \<lparr>httpMethod := MethodGet,
           useInvalidToken := False,
           acceptHeader := ''application/json''\<rparr>"
  have d: "httpMethod ?d = ''GET''" "body ?d = None" "useInvalidToken ?d = False"
    "queryParam ?d = None" "acceptHeader ?d = ''application/json''"
    by (simp_all add: zero_OptReqParams_def MethodGet_def)
  have "httpMethod (NewOptReqParams os) = field_after (httpMethod ?d) (last_writer writes_httpMethod os)"
    unfolding NewOptReqParams_def by (rule foldl_last_writer) (rule apply_option_httpMethod)
  moreover have "body (NewOptReqParams os) = field_after (body ?d) (last_writer writes_body os)"
    unfolding NewOptReqParams_def by (rule foldl_last_writer) (rule apply_option_body)
  moreover have "useInvalidToken (NewOptReqParams os) =
      field_after (useInvalidToken ?d) (last_writer writes_useInvalidToken os)"
    unfolding NewOptReqParams_def by (rule foldl_last_writer) (rule apply_option_useInvalidToken)
  moreover have "queryParam (NewOptReqParams os) =
      field_after (queryParam ?d) (last_writer writes_queryParam os)"
    unfolding NewOptReqParams_def by (rule foldl_last_writer) (rule apply_option_queryParam)
  moreover have "acceptHeader (NewOptReqParams os) =
      field_after (acceptHeader ?d) (last_writer writes_acceptHeader os)"
    unfolding NewOptReqParams_def by (rule foldl_last_writer) (rule apply_option_acceptHeader)
  ultimately show ?thesis
    unfolding d by blast
qed

section \<open>Maps of string slices, and the encoding of a query\<close>

lemma Get_all_Add:
  "Get_all (Add k v q) k' = (if k = k' then Get_all q k @ [v] else Get_all q k')"
  by (simp add: Get_all_def Add_def)

lemma fmdom_Add: "fmdom (Add k v q) = finsert k (fmdom q)"
  by (simp add: Add_def)

lemma Get_all_foldl_Add:
  "distinct ks \<Longrightarrow>
   Get_all (foldl (\<lambda>q k. Add k (f k) q) q0 ks) k' =
     Get_all q0 k' @ (if k' \<in> set ks then [f k'] else [])"
  by (induction ks arbitrary: q0) (auto simp: Get_all_Add)

lemma fmdom_foldl_Add:
  "fmdom (foldl (\<lambda>q k. Add k (f k) q) q0 ks) = fmdom q0 |\<union>| fset_of_list ks"
  by (induction ks arbitrary: q0) (auto simp: fmdom_Add)

lemma fmlookup_Get_all:
  "fmlookup v k = (if k |\<in>| fmdom v then Some (Get_all v k) else None)"
  by (auto simp: Get_all_def fmlookup_dom_iff split: option.splits)

lemma Values_eqI:
  assumes "fmdom a = fmdom b" and "\<And>k. Get_all a k = Get_all b k"
  shows "a = b"
proof (rule fmap_ext)
  fix k
  show "fmlookup a k = fmlookup b k"
    using assms by (simp add: fmlookup_Get_all [of a] fmlookup_Get_all [of b])
qed

lemma segment_not_Nil: "segment kv \<noteq> []"
  by (simp add: segment_def)

lemma join_Cons: "join sep (x # xs) = (if xs = [] then x else x @ sep @ join sep xs)"
  by (cases xs) simp_all

lemma foldl_write_pair:
  "foldl write_pair buf ps =
     (if ps = [] then buf
      else (if buf \<noteq> [] then buf @ ''&'' else []) @ encode_pairs ps)"
proof (induction ps arbitrary: buf)
  case Nil
  show ?case by simp
next
  case (Cons p ps)
  have ne: "write_pair buf p \<noteq> []"
    by (simp add: write_pair_def segment_not_Nil)
  show ?case
    by (simp add: Cons.IH ne join_Cons encode_pairs_def) (simp add: write_pair_def)
qed

lemma foldl_write_pair_Nil: "foldl write_pair [] ps = encode_pairs ps"
  by (simp add: foldl_write_pair encode_pairs_def)

lemma foldl_values_of_key:
  "foldl (\<lambda>buf val. (if buf \<noteq> [] then buf @ ''&'' else buf)
                @ QueryEscape k @ CHR ''='' # QueryEscape val) buf vs =
   foldl write_pair buf (map (Pair k) vs)"
  by (induction vs arbitrary: buf) (simp_all add: write_pair_def segment_def)

lemma foldl_keys:
  "foldl (\<lambda>buf k.
             foldl (\<lambda>buf val.
                  (if buf \<noteq> [] then buf @ ''&'' else buf)
                    @ QueryEscape k @ CHR ''='' # QueryEscape val)
                buf (Get_all v k)) buf ks =
   foldl write_pair buf (concat (map (\<lambda>k. map (Pair k) (Get_all v k)) ks))"
  by (induction ks arbitrary: buf) (simp_all add: foldl_values_of_key)

lemma Encode_pairs: "Encode v = encode_pairs (pairs v)"
proof (cases "fmdom v = {||}")
  case True
  then have "sorted_list_of_fset (fmdom v) = []"
    by (metis sorted_list_of_fset_simps(1) bot_fset.rep_eq set_empty)
  with True show ?thesis
    by (simp add: Encode_def pairs_def encode_pairs_def)
next
  case False
  then show ?thesis
    by (simp add: Encode_def pairs_def Let_def foldl_keys foldl_write_pair_Nil)
qed

lemma sorted_keys_pairs: "sorted (map fst (pairs v))"
proof -
  have *: "sorted ks \<Longrightarrow> sorted (map fst (concat (map (\<lambda>k. map (Pair k) (f k)) ks)))"
    for ks :: "string list" and f :: "string \<Rightarrow> string list"
  proof (induction ks)
    case Nil
    show ?case by simp
  next
    case (Cons k ks)
    then show ?case
      by (auto simp: sorted_append comp_def map_replicate_const)
  qed
  show ?thesis
    unfolding pairs_def by (rule *) (simp add: sorted_list_of_fset.rep_eq)
qed

lemma count_list_map_Pair:
  "count_list (map (Pair k') vs) (k, x) = (if k = k' then count_list vs x else 0)"
  by (induction vs) auto

lemma count_list_concat_keys:
  "distinct ks \<Longrightarrow>
   count_list (concat (map (\<lambda>k. map (Pair k) (f k)) ks)) (k, x) =
     (if k \<in> set ks then count_list (f k) x else 0)"
  by (induction ks) (auto simp: count_list_map_Pair)

lemma count_list_pairs: "count_list (pairs v) (k, x) = count_list (Get_all v k) x"
proof -
  have "Get_all v k = []" if "k \<notin> set (sorted_list_of_fset (fmdom v))"
    using that by (auto simp: Get_all_def split: option.splits dest: fmdom_notD)
  then show ?thesis
    by (auto simp: pairs_def count_list_concat_keys sorted_list_of_fset.rep_eq
        simp del: sorted_list_of_fset_simps)
qed

lemma pairs_fmempty: "pairs fmempty = []"
  by code_simp

text \<open>Escaped text holds only unreserved bytes, \<^verbatim>\<open>+\<close> and \<^verbatim>\<open>%\<close>: never a separator.\<close>

lemma upperhex_unreserved: "n < 16 \<Longrightarrow> \<not> shouldEscape (upperhex n)"
proof -
  have "\<forall>n\<in>set [0..<16]. \<not> shouldEscape (upperhex n)"
    by code_simp
  then show "n < 16 \<Longrightarrow> \<not> shouldEscape (upperhex n)"
    by simp
qed

lemma of_char_less_256: "of_char c < (256::nat)"
proof -
  have "of_char c mod 256 = (of_char c :: nat)"
    by (rule of_char_mod_256)
  moreover have "of_char c mod 256 < (256::nat)"
    by simp
  ultimately show ?thesis by simp
qed

lemma escape_byte_bytes:
  assumes "x \<in> set (escape_byte c)"
  shows "\<not> shouldEscape x \<or> x = CHR ''+'' \<or> x = CHR ''%''"
proof -
  have "of_char c div 16 < (16::nat)"
    using of_char_less_256 [of c] by (simp add: less_mult_imp_div_less)
  moreover have "of_char c mod 16 < (16::nat)"
    by simp
  ultimately show ?thesis
    using assms upperhex_unreserved
    by (auto simp: escape_byte_def split: if_splits)
qed

lemma QueryEscape_bytes:
  "x \<in> set (QueryEscape s) \<Longrightarrow> \<not> shouldEscape x \<or> x = CHR ''+'' \<or> x = CHR ''%''"
  by (auto simp: QueryEscape_def dest: escape_byte_bytes)

lemma QueryEscape_no_separator:
  "CHR ''&'' \<notin> set (QueryEscape s) \<and> CHR ''='' \<notin> set (QueryEscape s)"
proof -
  have "shouldEscape CHR ''&''" and "shouldEscape CHR ''=''"
    by (simp_all add: shouldEscape_def)
  then show ?thesis
    using QueryEscape_bytes [of "CHR ''&''" s] QueryEscape_bytes [of "CHR ''=''" s]
    by auto
qed

section \<open>The executor\<close>

lemma CustomHTTPRequest_returns:
  "\<exists>r. result (CustomHTTPRequest w ks ctx url email passwd (Some s)) = Returned r"
  by (simp add: CustomHTTPRequest_def Let_def split: sum.splits)

lemma Header_build_query: "Header (build_query w ks s req) = Header req"
  by (simp add: build_query_def Let_def split: option.splits)

lemma NewRequestWithContext_Inr:
  assumes "NewRequestWithContext w ctx method url b = Inr r"
  shows "Header r = fmempty"
    and "request_url w ctx (if method = [] then ''GET'' else method) url = Inr (URL r)"
  using assms by (auto simp: NewRequestWithContext_def Let_def split: sum.splits)

lemma issued_request:
  assumes "CallDo req \<in> set (calls (CustomHTTPRequest w ks ctx url email passwd (Some s)))"
  obtains a r where
    "NewRequestWithContext w ctx (httpMethod s) url (body s) = Inr r"
    "req = build_query w ks s (add_headers s a r)"
    "if useInvalidToken s then a = ''Bearer Invalid Token''
     else \<exists>resp. MyLoginAPI w ctx email passwd = Inr resp \<and> a = ''Bearer '' @ Token resp"
    "result (CustomHTTPRequest w ks ctx url email passwd (Some s)) = Returned (client_Do w req)"
  using assms
  by (auto simp: CustomHTTPRequest_def Let_def split: sum.splits if_splits)

lemma Header_add_headers_fresh:
  "Header r = fmempty \<Longrightarrow>
   Header (add_headers s a r) =
     fmupd ''Content-Type'' [''application/json'']
       (fmupd ''Authorization'' [a] (fmupd ''Accept'' [acceptHeader s] fmempty))"
  by (simp add: add_headers_def Add_def Get_all_def)

lemma URL_add_headers: "URL (add_headers s a r) = URL r"
  by (simp add: add_headers_def)

lemma foldl_Add_order:
  assumes "range_order m ks1" and "range_order m ks2"
  shows "foldl (\<lambda>q k. Add k (f k) q) q0 ks1 = foldl (\<lambda>q k. Add k (f k) q) q0 ks2"
proof (rule Values_eqI)
  from assms have s: "fset_of_list ks1 = fset_of_list ks2"
    by (simp add: range_order_def)
  then show "fmdom (foldl (\<lambda>q k. Add k (f k) q) q0 ks1) = fmdom (foldl (\<lambda>q k. Add k (f k) q) q0 ks2)"
    by (simp add: fmdom_foldl_Add)
  fix k
  from s have "set ks1 = set ks2"
    by (metis fset_of_list.rep_eq)
  with assms show "Get_all (foldl (\<lambda>q k. Add k (f k) q) q0 ks1) k =
      Get_all (foldl (\<lambda>q k. Add k (f k) q) q0 ks2) k"
    by (simp add: range_order_def Get_all_foldl_Add)
qed

lemma build_query_order:
  assumes "queryParam s = Some m" and "range_order m ks1" and "range_order m ks2"
  shows "build_query w ks1 s req = build_query w ks2 s req"
  using assms(1) foldl_Add_order [OF assms(2,3)]
  by (simp add: build_query_def Let_def)

lemma range_order_index:
  "range_order m ks \<Longrightarrow>
   (k \<in> set ks \<and> index m k = v) = (fmlookup m k = Some v)"
  by (auto simp: range_order_def index_def fset_of_list.rep_eq fmlookup_dom_iff
      split: option.splits dest!: arg_cong [where f = fset])

lemma build_query_RawQuery:
  assumes "queryParam s = Some m" and "range_order m ks"
  shows "\<exists>ps. RawQuery (URL (build_query w ks s req)) = encode_pairs ps
            \<and> sorted (map fst ps)
            \<and> (\<forall>k v. count_list ps (k, v) =
                  count_list (pairs (ParseQuery w (RawQuery (URL req)))) (k, v)
                    + (if fmlookup m k = Some v then 1 else 0))"
proof -
  let ?q = "foldl (\<lambda>q k. Add k (index m k) q) (ParseQuery w (RawQuery (URL req))) ks"
  from assms(2) have d: "distinct ks" by (simp add: range_order_def)
  have "RawQuery (URL (build_query w ks s req)) = encode_pairs (pairs ?q)"
    using assms(1) by (simp add: build_query_def Let_def Encode_pairs)
  moreover have "sorted (map fst (pairs ?q))"
    by (rule sorted_keys_pairs)
  moreover have "count_list (pairs ?q) (k, v) =
      count_list (pairs (ParseQuery w (RawQuery (URL req)))) (k, v)
        + (if fmlookup m k = Some v then 1 else 0)" for k v
    using range_order_index [OF assms(2), of k v]
    by (auto simp: count_list_pairs Get_all_foldl_Add [OF d])
  ultimately show ?thesis by blast
qed

text \<open>
  The whole run once the authorization string \<open>a\<close> is resolved and construction gave
  \<open>r\<close>: the request is sent, and it is \<open>r\<close> with the headers and the query added.
\<close>

lemma run_when_built:
  assumes "if useInvalidToken s then a = ''Bearer Invalid Token''
     else \<exists>resp. MyLoginAPI w ctx email passwd = Inr resp \<and> a = ''Bearer '' @ Token resp"
    and "NewRequestWithContext w ctx (httpMethod s) url (body s) = Inr r"
  shows "CustomHTTPRequest w ks ctx url email passwd (Some s) =
     \<lparr>result = Returned (client_Do w (build_query w ks s (add_headers s a r))),
      calls = (if useInvalidToken s then [] else [CallMyLoginAPI ctx email passwd])
        @ [CallNewRequestWithContext ctx (httpMethod s) url (body s),
           CallDo (build_query w ks s (add_headers s a r))],
      params_after = Some (s\<lparr>body :=
        read_from (body_read w (build_query w ks s (add_headers s a r))) (body s)\<rparr>)\<rparr>"
  using assms
  by (auto simp: CustomHTTPRequest_def Let_def split: sum.splits if_splits)

lemma resolved_authString:
  assumes "useInvalidToken s \<or> (\<exists>resp. MyLoginAPI w ctx email passwd = Inr resp)"
  obtains a where "if useInvalidToken s then a = ''Bearer Invalid Token''
     else \<exists>resp. MyLoginAPI w ctx email passwd = Inr resp \<and> a = ''Bearer '' @ Token resp"
  using assms by (cases "useInvalidToken s") auto



text \<open>The second call of \<^verbatim>\<open>main\<close>, run against the stub.\<close>

lemma main_second_call:
  "CustomHTTPRequest (stub_world True True True) [''name'', ''age''] Background ''some_url''
     ''email_addr'' ''email_passwd'' (Some main_params) =
   \<lparr>result = Returned (Inr \<lparr>StatusCode = 200, ResponseBody = []\<rparr>),
    calls = [CallMyLoginAPI Background ''email_addr'' ''email_passwd'',
             CallNewRequestWithContext Background ''POST'' ''some_url'' None,
             CallDo main_request],
    params_after = Some main_params\<rparr>"
  by code_simp

section \<open>The claims about the executor\<close>

text \<open>
  C1. The claim: with a nil configuration the executor substitutes the defaults and
  behaves as with a configuration built from no mutators. The code does not: it reads
  \<^verbatim>\<open>p.useInvalidToken\<close> first, so a nil \<open>p\<close> ends the call with a nil-pointer panic
  before any collaborator is called, while the call with the default configuration
  returns.
\<close>

theorem CustomHTTPRequest_nil_params_panics:
  "CustomHTTPRequest w ks ctx url email passwd None =
     \<lparr>result = Panic NilPointerDereference, calls = [], params_after = None\<rparr>
   \<and> result (CustomHTTPRequest w ks ctx url email passwd (Some (NewOptReqParams [])))
       \<noteq> Panic NilPointerDereference"
  by (simp add: CustomHTTPRequest_def Let_def split: sum.splits)

text \<open>
  C2. With useInvalidToken false, when login fails the executor returns a new error
  whose text is "error in login with user provided credentials", a space and the text of
  the login error; the login call is the only call it makes, so no request is built or
  sent.
\<close>

theorem login_failure_is_wrapped:
  assumes "\<not> useInvalidToken s" and "MyLoginAPI w ctx email passwd = Inl err"
  shows "result (CustomHTTPRequest w ks ctx url email passwd (Some s)) =
           Returned (Inl (errorString
             (''error in login with user provided credentials '' @ Error err)))
         \<and> calls (CustomHTTPRequest w ks ctx url email passwd (Some s)) =
             [CallMyLoginAPI ctx email passwd]"
  using assms by (simp add: CustomHTTPRequest_def errors_New_def)

theorem login_failure_is_wrapped_witness:
  "\<not> useInvalidToken (NewOptReqParams [])
   \<and> MyLoginAPI (stub_world False True True) Background ''email_addr'' ''email_passwd''
       = Inl (errorString ''denied'')
   \<and> result (CustomHTTPRequest (stub_world False True True) [] Background ''some_url''
        ''email_addr'' ''email_passwd'' (Some (NewOptReqParams []))) =
       Returned (Inl (errorString ''error in login with user provided credentials denied''))
   \<and> calls (CustomHTTPRequest (stub_world False True True) [] Background ''some_url''
        ''email_addr'' ''email_passwd'' (Some (NewOptReqParams []))) =
       [CallMyLoginAPI Background ''email_addr'' ''email_passwd'']"
  using login_failure_is_wrapped [of "NewOptReqParams []" "stub_world False True True"
      Background "''email_addr''" "''email_passwd''" "errorString ''denied''" "[]" "''some_url''"]
  by (simp add: NewOptReqParams_def zero_OptReqParams_def stub_world_def)

text \<open>
  C3. With useInvalidToken true, the executor never calls the login collaborator; and
  whenever request construction succeeds it sends exactly one request, whose
  Authorization header has the single value "Bearer Invalid Token" (as has every request
  found among its calls).
\<close>

theorem invalid_token_skips_login:
  assumes "useInvalidToken s"
  shows "(\<forall>c e pw. CallMyLoginAPI c e pw
            \<notin> set (calls (CustomHTTPRequest w ks ctx url email passwd (Some s))))
       \<and> (\<forall>req. CallDo req \<in> set (calls (CustomHTTPRequest w ks ctx url email passwd (Some s)))
            \<longrightarrow> Get_all (Header req) ''Authorization'' = [''Bearer Invalid Token''])
       \<and> (\<forall>r. NewRequestWithContext w ctx (httpMethod s) url (body s) = Inr r \<longrightarrow>
            (\<exists>req. calls (CustomHTTPRequest w ks ctx url email passwd (Some s)) =
                      [CallNewRequestWithContext ctx (httpMethod s) url (body s), CallDo req]
                  \<and> result (CustomHTTPRequest w ks ctx url email passwd (Some s)) =
                      Returned (client_Do w req)
                  \<and> Get_all (Header req) ''Authorization'' = [''Bearer Invalid Token'']))"
proof (intro conjI allI impI)
  fix c e pw
  show "CallMyLoginAPI c e pw \<notin> set (calls (CustomHTTPRequest w ks ctx url email passwd (Some s)))"
    using assms by (simp add: CustomHTTPRequest_def Let_def split: sum.splits)
next
  fix req
  assume "CallDo req \<in> set (calls (CustomHTTPRequest w ks ctx url email passwd (Some s)))"
  then obtain a r where r: "NewRequestWithContext w ctx (httpMethod s) url (body s) = Inr r"
    and req: "req = build_query w ks s (add_headers s a r)"
    and a: "if useInvalidToken s then a = ''Bearer Invalid Token''
     else \<exists>resp. MyLoginAPI w ctx email passwd = Inr resp \<and> a = ''Bearer '' @ Token resp"
    by (rule issued_request)
  from a assms have "a = ''Bearer Invalid Token''" by simp
  with req NewRequestWithContext_Inr(1)[OF r]
  show "Get_all (Header req) ''Authorization'' = [''Bearer Invalid Token'']"
    by (simp add: Header_build_query Header_add_headers_fresh Get_all_def)
next
  fix r
  assume r: "NewRequestWithContext w ctx (httpMethod s) url (body s) = Inr r"
  let ?req = "build_query w ks s (add_headers s ''Bearer Invalid Token'' r)"
  from assms have a: "if useInvalidToken s then ''Bearer Invalid Token'' = ''Bearer Invalid Token''
     else \<exists>resp. MyLoginAPI w ctx email passwd = Inr resp
            \<and> ''Bearer Invalid Token'' = ''Bearer '' @ Token resp"
    by simp
  have run: "calls (CustomHTTPRequest w ks ctx url email passwd (Some s)) =
        [CallNewRequestWithContext ctx (httpMethod s) url (body s), CallDo ?req]"
    "result (CustomHTTPRequest w ks ctx url email passwd (Some s)) = Returned (client_Do w ?req)"
    using assms by (simp_all add: run_when_built [OF a r])
  have "Get_all (Header ?req) ''Authorization'' = [''Bearer Invalid Token'']"
    using NewRequestWithContext_Inr(1)[OF r]
    by (simp add: Header_build_query Header_add_headers_fresh Get_all_def)
  with run
  show "\<exists>req. calls (CustomHTTPRequest w ks ctx url email passwd (Some s)) =
                      [CallNewRequestWithContext ctx (httpMethod s) url (body s), CallDo req]
                  \<and> result (CustomHTTPRequest w ks ctx url email passwd (Some s)) =
                      Returned (client_Do w req)
                  \<and> Get_all (Header req) ''Authorization'' = [''Bearer Invalid Token'']"
    by blast
qed

theorem invalid_token_skips_login_witness:
  "useInvalidToken (NewOptReqParams [WithUseInvalidToken True])
   \<and> NewRequestWithContext (stub_world False True True) Background
        (httpMethod (NewOptReqParams [WithUseInvalidToken True])) ''some_url''
        (body (NewOptReqParams [WithUseInvalidToken True]))
       = Inr \<lparr>Method = ''GET'', URL = some_url, Header = fmempty, Body = None,
              Ctx = Background\<rparr>
   \<and> CallMyLoginAPI Background ''email_addr'' ''email_passwd''
       \<notin> set (calls (CustomHTTPRequest (stub_world False True True) [] Background ''some_url''
            ''email_addr'' ''email_passwd'' (Some (NewOptReqParams [WithUseInvalidToken True]))))
   \<and> calls (CustomHTTPRequest (stub_world False True True) [] Background ''some_url''
            ''email_addr'' ''email_passwd'' (Some (NewOptReqParams [WithUseInvalidToken True])))
       = [CallNewRequestWithContext Background ''GET'' ''some_url'' None,
          CallDo invalid_token_request]
   \<and> (\<exists>req. calls (CustomHTTPRequest (stub_world False True True) [] Background ''some_url''
            ''email_addr'' ''email_passwd'' (Some (NewOptReqParams [WithUseInvalidToken True])))
          = [CallNewRequestWithContext Background
               (httpMethod (NewOptReqParams [WithUseInvalidToken True])) ''some_url''
               (body (NewOptReqParams [WithUseInvalidToken True])),
             CallDo req]
        \<and> Get_all (Header req) ''Authorization'' = [''Bearer Invalid Token''])
   \<and> Get_all (Header invalid_token_request) ''Authorization'' = [''Bearer Invalid Token'']"
proof -
  let ?s = "NewOptReqParams [WithUseInvalidToken True]"
  let ?w = "stub_world False True True"
  let ?ex = "CustomHTTPRequest ?w [] Background ''some_url''
            ''email_addr'' ''email_passwd'' (Some ?s)"
  have u: "useInvalidToken ?s"
    by (simp add: NewOptReqParams_def)
  have build: "NewRequestWithContext ?w Background (httpMethod ?s) ''some_url'' (body ?s)
      = Inr \<lparr>Method = ''GET'', URL = some_url, Header = fmempty, Body = None,
              Ctx = Background\<rparr>"
    by (simp add: NewRequestWithContext_def stub_world_def NewOptReqParams_def
        zero_OptReqParams_def MethodGet_def)
  note t = invalid_token_skips_login [OF u, of ?w "[]" Background
      "''some_url''" "''email_addr''" "''email_passwd''"]
  have run: "calls ?ex = [CallNewRequestWithContext Background ''GET'' ''some_url'' None,
          CallDo invalid_token_request]"
    by (simp add: CustomHTTPRequest_def NewRequestWithContext_def stub_world_def
        NewOptReqParams_def zero_OptReqParams_def MethodGet_def add_headers_def
        build_query_def Add_def Get_all_def invalid_token_request_def)
  then have sent: "CallDo invalid_token_request \<in> set (calls ?ex)"
    by simp
  from t have no_login: "CallMyLoginAPI Background ''email_addr'' ''email_passwd''
      \<notin> set (calls ?ex)"
    by blast
  from t build
  have one: "\<exists>req. calls ?ex = [CallNewRequestWithContext Background (httpMethod ?s)
        ''some_url'' (body ?s), CallDo req]
      \<and> Get_all (Header req) ''Authorization'' = [''Bearer Invalid Token'']"
    by blast
  from t sent
  have "Get_all (Header invalid_token_request) ''Authorization'' = [''Bearer Invalid Token'']"
    by blast
  with u build no_login run one show ?thesis
    by blast
qed

text \<open>
  C6. Whenever the authorization string is resolved (the invalid-token literal, or
  "Bearer " and the token a successful login returned) and request construction
  succeeds, the executor sends one request, and its header has exactly three keys, each
  with one value: Accept with the configured accept header, Authorization with the
  authorization string, and Content-Type with "application/json".
\<close>

theorem exactly_three_headers:
  assumes "if useInvalidToken s then a = ''Bearer Invalid Token''
     else \<exists>resp. MyLoginAPI w ctx email passwd = Inr resp \<and> a = ''Bearer '' @ Token resp"
    and "NewRequestWithContext w ctx (httpMethod s) url (body s) = Inr r"
  shows "\<exists>req. calls (CustomHTTPRequest w ks ctx url email passwd (Some s)) =
                  (if useInvalidToken s then [] else [CallMyLoginAPI ctx email passwd])
                    @ [CallNewRequestWithContext ctx (httpMethod s) url (body s), CallDo req]
              \<and> result (CustomHTTPRequest w ks ctx url email passwd (Some s)) =
                  Returned (client_Do w req)
              \<and> Header req =
                  fmupd ''Content-Type'' [''application/json'']
                    (fmupd ''Authorization'' [a] (fmupd ''Accept'' [acceptHeader s] fmempty))"
proof -
  let ?req = "build_query w ks s (add_headers s a r)"
  have "Header ?req =
            fmupd ''Content-Type'' [''application/json'']
              (fmupd ''Authorization'' [a] (fmupd ''Accept'' [acceptHeader s] fmempty))"
    using NewRequestWithContext_Inr(1)[OF assms(2)]
    by (simp add: Header_build_query Header_add_headers_fresh)
  moreover have "calls (CustomHTTPRequest w ks ctx url email passwd (Some s)) =
                  (if useInvalidToken s then [] else [CallMyLoginAPI ctx email passwd])
                    @ [CallNewRequestWithContext ctx (httpMethod s) url (body s), CallDo ?req]"
    by (simp add: run_when_built [OF assms])
  moreover have "result (CustomHTTPRequest w ks ctx url email passwd (Some s)) =
                  Returned (client_Do w ?req)"
    by (simp add: run_when_built [OF assms])
  ultimately show ?thesis by blast
qed

theorem exactly_three_headers_witness:
  "(if useInvalidToken main_params then ''Bearer tok'' = ''Bearer Invalid Token''
    else \<exists>resp. MyLoginAPI (stub_world True True True) Background
                   ''email_addr'' ''email_passwd'' = Inr resp
            \<and> ''Bearer tok'' = ''Bearer '' @ Token resp)
   \<and> NewRequestWithContext (stub_world True True True) Background (httpMethod main_params)
        ''some_url'' (body main_params)
       = Inr \<lparr>Method = ''POST'', URL = some_url, Header = fmempty, Body = None,
              Ctx = Background\<rparr>
   \<and> (\<exists>req. calls (CustomHTTPRequest (stub_world True True True) [''name'', ''age'']
                 Background ''some_url'' ''email_addr'' ''email_passwd'' (Some main_params)) =
               (if useInvalidToken main_params then []
                else [CallMyLoginAPI Background ''email_addr'' ''email_passwd''])
                 @ [CallNewRequestWithContext Background (httpMethod main_params) ''some_url''
                      (body main_params),
                    CallDo req]
          \<and> result (CustomHTTPRequest (stub_world True True True) [''name'', ''age'']
                 Background ''some_url'' ''email_addr'' ''email_passwd'' (Some main_params)) =
               Returned (client_Do (stub_world True True True) req)
          \<and> Header req =
               fmupd ''Content-Type'' [''application/json'']
                 (fmupd ''Authorization'' [''Bearer tok'']
                   (fmupd ''Accept'' [acceptHeader main_params] fmempty)))"
proof -
  let ?w = "stub_world True True True"
  have auth: "if useInvalidToken main_params then ''Bearer tok'' = ''Bearer Invalid Token''
    else \<exists>resp. MyLoginAPI ?w Background ''email_addr'' ''email_passwd'' = Inr resp
            \<and> ''Bearer tok'' = ''Bearer '' @ Token resp"
    by (simp add: main_params_def NewOptReqParams_def zero_OptReqParams_def stub_world_def)
  have build: "NewRequestWithContext ?w Background (httpMethod main_params)
        ''some_url'' (body main_params)
       = Inr \<lparr>Method = ''POST'', URL = some_url, Header = fmempty, Body = None,
              Ctx = Background\<rparr>"
    by (simp add: NewRequestWithContext_def stub_world_def main_params_def NewOptReqParams_def)
  from auth build exactly_three_headers [OF auth build, of "[''name'', ''age'']"]
  show ?thesis
    by blast
qed

text \<open>
  C7. Once the authorization string is resolved, an error of request construction is
  returned as it is, and so is an error of sending the request: the returned error is the
  very error value the library gave, with nothing added.
\<close>

theorem request_errors_returned_unchanged:
  "(useInvalidToken s \<or> (\<exists>resp. MyLoginAPI w ctx email passwd = Inr resp)
      \<longrightarrow> NewRequestWithContext w ctx (httpMethod s) url (body s) = Inl e
      \<longrightarrow> result (CustomHTTPRequest w ks ctx url email passwd (Some s)) = Returned (Inl e))
   \<and> (\<forall>req. CallDo req \<in> set (calls (CustomHTTPRequest w ks ctx url email passwd (Some s)))
      \<longrightarrow> client_Do w req = Inl e
      \<longrightarrow> result (CustomHTTPRequest w ks ctx url email passwd (Some s)) = Returned (Inl e))"
proof (intro conjI allI impI)
  assume "useInvalidToken s \<or> (\<exists>resp. MyLoginAPI w ctx email passwd = Inr resp)"
    and "NewRequestWithContext w ctx (httpMethod s) url (body s) = Inl e"
  then show "result (CustomHTTPRequest w ks ctx url email passwd (Some s)) = Returned (Inl e)"
    by (auto simp: CustomHTTPRequest_def Let_def)
next
  fix req
  assume "CallDo req \<in> set (calls (CustomHTTPRequest w ks ctx url email passwd (Some s)))"
    and e: "client_Do w req = Inl e"
  then have "result (CustomHTTPRequest w ks ctx url email passwd (Some s)) = Returned (client_Do w req)"
    by (elim issued_request)
  with e show "result (CustomHTTPRequest w ks ctx url email passwd (Some s)) = Returned (Inl e)"
    by simp
qed

theorem request_errors_returned_unchanged_witness:
  "(\<exists>resp. MyLoginAPI (stub_world True False True) Background ''email_addr'' ''email_passwd''
             = Inr resp)
   \<and> NewRequestWithContext (stub_world True False True) Background
        (httpMethod (NewOptReqParams [])) ''some_url'' (body (NewOptReqParams []))
       = Inl (errorString ''parse error'')
   \<and> result (CustomHTTPRequest (stub_world True False True) [] Background ''some_url''
        ''email_addr'' ''email_passwd'' (Some (NewOptReqParams [])))
       = Returned (Inl (errorString ''parse error''))
   \<and> CallDo default_request
       \<in> set (calls (CustomHTTPRequest (stub_world True True False) [] Background ''some_url''
            ''email_addr'' ''email_passwd'' (Some (NewOptReqParams []))))
   \<and> client_Do (stub_world True True False) default_request
       = Inl (errorString ''connection refused'')
   \<and> result (CustomHTTPRequest (stub_world True True False) [] Background ''some_url''
        ''email_addr'' ''email_passwd'' (Some (NewOptReqParams [])))
       = Returned (Inl (errorString ''connection refused''))"
proof -
  let ?s = "NewOptReqParams []"
  have login: "\<exists>resp. MyLoginAPI (stub_world True False True) Background ''email_addr''
      ''email_passwd'' = Inr resp"
    by (simp add: stub_world_def)
  have build: "NewRequestWithContext (stub_world True False True) Background
        (httpMethod ?s) ''some_url'' (body ?s) = Inl (errorString ''parse error'')"
    by (simp add: NewRequestWithContext_def stub_world_def NewOptReqParams_def MethodGet_def)
  have sent: "CallDo default_request
       \<in> set (calls (CustomHTTPRequest (stub_world True True False) [] Background ''some_url''
            ''email_addr'' ''email_passwd'' (Some ?s)))"
    by (simp add: CustomHTTPRequest_def NewRequestWithContext_def stub_world_def
        NewOptReqParams_def zero_OptReqParams_def MethodGet_def add_headers_def
        build_query_def Add_def Get_all_def default_request_def)
  have do: "client_Do (stub_world True True False) default_request
       = Inl (errorString ''connection refused'')"
    by (simp add: stub_world_def)
  note a = request_errors_returned_unchanged [of ?s "stub_world True False True" Background
      "''email_addr''" "''email_passwd''" "''some_url''" "errorString ''parse error''" "[]"]
  note b = request_errors_returned_unchanged [of ?s "stub_world True True False" Background
      "''email_addr''" "''email_passwd''" "''some_url''" "errorString ''connection refused''" "[]"]
  from a login build
  have "result (CustomHTTPRequest (stub_world True False True) [] Background ''some_url''
        ''email_addr'' ''email_passwd'' (Some ?s)) = Returned (Inl (errorString ''parse error''))"
    by blast
  moreover from b sent do
  have "result (CustomHTTPRequest (stub_world True True False) [] Background ''some_url''
        ''email_addr'' ''email_passwd'' (Some ?s))
       = Returned (Inl (errorString ''connection refused''))"
    by blast
  ultimately show ?thesis
    using login build sent do by blast
qed




text \<open>
  C5. Whenever the authorization string is resolved and construction gives a request
  \<open>r\<close>, the executor sends one request built on \<open>r\<close>. With a nil queryParam its URL is
  the one of \<open>r\<close>, untouched. With a non-nil map, visited in whatever order, its raw query
  is the percent-encoded wire form of a list of pairs in which every pair occurs as often
  as in the query the URL already had, plus exactly once if it is a key/value pair of
  the map (so an empty map adds nothing).
\<close>

theorem query_parameters_each_once:
  assumes "useInvalidToken s \<or> (\<exists>resp. MyLoginAPI w ctx email passwd = Inr resp)"
    and "NewRequestWithContext w ctx (httpMethod s) url (body s) = Inr r"
  shows "\<exists>req. calls (CustomHTTPRequest w ks ctx url email passwd (Some s)) =
                  (if useInvalidToken s then [] else [CallMyLoginAPI ctx email passwd])
                    @ [CallNewRequestWithContext ctx (httpMethod s) url (body s), CallDo req]
              \<and> result (CustomHTTPRequest w ks ctx url email passwd (Some s)) =
                  Returned (client_Do w req)
              \<and> (queryParam s = None \<longrightarrow> URL req = URL r)
              \<and> (\<forall>m. queryParam s = Some m \<and> range_order m ks \<longrightarrow>
                   (\<exists>ps. RawQuery (URL req) = encode_pairs ps
                      \<and> (\<forall>k v. count_list ps (k, v) =
                            count_list (pairs (ParseQuery w (RawQuery (URL r)))) (k, v)
                              + (if fmlookup m k = Some v then 1 else 0))))"
proof -
  from assms(1) obtain a where a: "if useInvalidToken s then a = ''Bearer Invalid Token''
     else \<exists>resp. MyLoginAPI w ctx email passwd = Inr resp \<and> a = ''Bearer '' @ Token resp"
    by (rule resolved_authString)
  let ?req = "build_query w ks s (add_headers s a r)"
  have run: "calls (CustomHTTPRequest w ks ctx url email passwd (Some s)) =
                  (if useInvalidToken s then [] else [CallMyLoginAPI ctx email passwd])
                    @ [CallNewRequestWithContext ctx (httpMethod s) url (body s), CallDo ?req]"
    "result (CustomHTTPRequest w ks ctx url email passwd (Some s)) = Returned (client_Do w ?req)"
    by (simp_all add: run_when_built [OF a assms(2)])
  have nil: "URL ?req = URL r" if "queryParam s = None"
    using that by (simp add: build_query_def URL_add_headers)
  have some: "\<exists>ps. RawQuery (URL ?req) = encode_pairs ps
               \<and> (\<forall>k v. count_list ps (k, v) =
                     count_list (pairs (ParseQuery w (RawQuery (URL r)))) (k, v)
                       + (if fmlookup m k = Some v then 1 else 0))"
    if "queryParam s = Some m" and "range_order m ks" for m
    using build_query_RawQuery [OF that, of w "add_headers s a r"]
    by (auto simp: URL_add_headers)
  from run nil some show ?thesis
    by (intro exI [of _ ?req]) blast
qed

theorem query_parameters_each_once_witness:
  "(useInvalidToken main_params
      \<or> (\<exists>resp. MyLoginAPI (stub_world True True True) Background
                  ''email_addr'' ''email_passwd'' = Inr resp))
   \<and> NewRequestWithContext (stub_world True True True) Background (httpMethod main_params)
        ''some_url'' (body main_params)
       = Inr \<lparr>Method = ''POST'', URL = some_url, Header = fmempty, Body = None,
              Ctx = Background\<rparr>
   \<and> queryParam main_params = Some main_query
   \<and> range_order main_query [''name'', ''age'']
   \<and> calls (CustomHTTPRequest (stub_world True True True) [''name'', ''age''] Background
        ''some_url'' ''email_addr'' ''email_passwd'' (Some main_params))
       = [CallMyLoginAPI Background ''email_addr'' ''email_passwd'',
          CallNewRequestWithContext Background ''POST'' ''some_url'' None,
          CallDo main_request]
   \<and> RawQuery (URL main_request) = ''age=10&name=xyz''
   \<and> (\<exists>ps. RawQuery (URL main_request) = encode_pairs ps
        \<and> (\<forall>k v. count_list ps (k, v) = (if fmlookup main_query k = Some v then 1 else 0)))"
proof -
  let ?w = "stub_world True True True"
  let ?r = "\<lparr>Method = ''POST'', URL = some_url, Header = fmempty, Body = None,
              Ctx = Background\<rparr>"
  let ?ex = "CustomHTTPRequest ?w [''name'', ''age''] Background
          ''some_url'' ''email_addr'' ''email_passwd'' (Some main_params)"
  have auth: "useInvalidToken main_params
      \<or> (\<exists>resp. MyLoginAPI ?w Background ''email_addr'' ''email_passwd'' = Inr resp)"
    by (simp add: stub_world_def)
  have build: "NewRequestWithContext ?w Background (httpMethod main_params)
        ''some_url'' (body main_params) = Inr ?r"
    by (simp add: NewRequestWithContext_def stub_world_def main_params_def NewOptReqParams_def)
  have q: "queryParam main_params = Some main_query"
    by (simp add: main_params_def NewOptReqParams_def)
  have order: "range_order main_query [''name'', ''age'']"
    by (auto simp: range_order_def main_query_def)
  have none: "pairs (ParseQuery ?w (RawQuery (URL ?r))) = []"
    by (simp add: stub_world_def pairs_fmempty)
  have run: "calls ?ex = [CallMyLoginAPI Background ''email_addr'' ''email_passwd'',
          CallNewRequestWithContext Background ''POST'' ''some_url'' None,
          CallDo main_request]"
    by (simp add: main_second_call)
  have raw: "RawQuery (URL main_request) = ''age=10&name=xyz''"
    by (simp add: main_request_def)
  from query_parameters_each_once [OF auth build, of "[''name'', ''age'']"]
  obtain req where "calls ?ex =
        (if useInvalidToken main_params then []
         else [CallMyLoginAPI Background ''email_addr'' ''email_passwd''])
          @ [CallNewRequestWithContext Background (httpMethod main_params) ''some_url''
               (body main_params), CallDo req]"
    and all: "\<forall>m. queryParam main_params = Some m \<and> range_order m [''name'', ''age''] \<longrightarrow>
        (\<exists>ps. RawQuery (URL req) = encode_pairs ps
           \<and> (\<forall>k v. count_list ps (k, v) =
                 count_list (pairs (ParseQuery ?w (RawQuery (URL ?r)))) (k, v)
                   + (if fmlookup m k = Some v then 1 else 0)))"
    by blast
  with run have "req = main_request"
    by (simp split: if_splits)
  with all q order
  have "\<exists>ps. RawQuery (URL main_request) = encode_pairs ps
        \<and> (\<forall>k v. count_list ps (k, v) =
              count_list (pairs (ParseQuery ?w (RawQuery (URL ?r)))) (k, v)
                + (if fmlookup main_query k = Some v then 1 else 0))"
    by blast
  then have "\<exists>ps. RawQuery (URL main_request) = encode_pairs ps
        \<and> (\<forall>k v. count_list ps (k, v) = (if fmlookup main_query k = Some v then 1 else 0))"
    unfolding none by simp
  with auth build q order run raw show ?thesis
    by blast
qed

text \<open>
  C10. For a non-nil queryParam map, the whole run of the executor is the same for any
  two orders in which the range loop may visit the keys. Whenever the authorization
  string is resolved and construction gives a request \<open>r\<close>, the run sends one request,
  and its raw query is the wire form of a list of pairs that is sorted by key, holds
  every key/value pair of the map, and holds every pair as often as the query of \<open>r\<close>
  had it, plus once if it is a pair of the map.
\<close>

theorem query_string_independent_of_range_order:
  assumes "queryParam s = Some m" and "range_order m ks1" and "range_order m ks2"
  shows "CustomHTTPRequest w ks1 ctx url email passwd (Some s) =
           CustomHTTPRequest w ks2 ctx url email passwd (Some s)
       \<and> (\<forall>r. (useInvalidToken s \<or> (\<exists>resp. MyLoginAPI w ctx email passwd = Inr resp))
              \<and> NewRequestWithContext w ctx (httpMethod s) url (body s) = Inr r \<longrightarrow>
            (\<exists>req ps.
                calls (CustomHTTPRequest w ks1 ctx url email passwd (Some s)) =
                  (if useInvalidToken s then [] else [CallMyLoginAPI ctx email passwd])
                    @ [CallNewRequestWithContext ctx (httpMethod s) url (body s), CallDo req]
              \<and> RawQuery (URL req) = encode_pairs ps
              \<and> sorted (map fst ps)
              \<and> (\<forall>k v. fmlookup m k = Some v \<longrightarrow> (k, v) \<in> set ps)
              \<and> (\<forall>k v. count_list ps (k, v) =
                    count_list (pairs (ParseQuery w (RawQuery (URL r)))) (k, v)
                      + (if fmlookup m k = Some v then 1 else 0))))"
proof (intro conjI allI impI)
  show "CustomHTTPRequest w ks1 ctx url email passwd (Some s) =
           CustomHTTPRequest w ks2 ctx url email passwd (Some s)"
  proof -
    have "build_query w ks1 s = build_query w ks2 s"
      by (rule ext) (rule build_query_order [OF assms])
    then show ?thesis
      by (auto simp: CustomHTTPRequest_def Let_def split: sum.splits)
  qed
next
  fix r
  assume "(useInvalidToken s \<or> (\<exists>resp. MyLoginAPI w ctx email passwd = Inr resp))
              \<and> NewRequestWithContext w ctx (httpMethod s) url (body s) = Inr r"
  then have r: "NewRequestWithContext w ctx (httpMethod s) url (body s) = Inr r"
    and "useInvalidToken s \<or> (\<exists>resp. MyLoginAPI w ctx email passwd = Inr resp)"
    by simp_all
  then obtain a where a: "if useInvalidToken s then a = ''Bearer Invalid Token''
     else \<exists>resp. MyLoginAPI w ctx email passwd = Inr resp \<and> a = ''Bearer '' @ Token resp"
    by (elim resolved_authString)
  let ?req = "build_query w ks1 s (add_headers s a r)"
  have run: "calls (CustomHTTPRequest w ks1 ctx url email passwd (Some s)) =
                  (if useInvalidToken s then [] else [CallMyLoginAPI ctx email passwd])
                    @ [CallNewRequestWithContext ctx (httpMethod s) url (body s), CallDo ?req]"
    by (simp add: run_when_built [OF a r])
  from build_query_RawQuery [OF assms(1,2), of w "add_headers s a r"]
  obtain ps where ps: "RawQuery (URL ?req) = encode_pairs ps" "sorted (map fst ps)"
    and cnt: "\<And>k v. count_list ps (k, v) =
                  count_list (pairs (ParseQuery w (RawQuery (URL r)))) (k, v)
                    + (if fmlookup m k = Some v then 1 else 0)"
    by (auto simp: URL_add_headers)
  have mem: "(k, v) \<in> set ps" if "fmlookup m k = Some v" for k v
  proof (rule ccontr)
    assume "(k, v) \<notin> set ps"
    then have "count_list ps (k, v) = 0" by simp
    with cnt [of k v] that show False by simp
  qed
  from run ps mem cnt
  show "\<exists>req ps.
                calls (CustomHTTPRequest w ks1 ctx url email passwd (Some s)) =
                  (if useInvalidToken s then [] else [CallMyLoginAPI ctx email passwd])
                    @ [CallNewRequestWithContext ctx (httpMethod s) url (body s), CallDo req]
              \<and> RawQuery (URL req) = encode_pairs ps
              \<and> sorted (map fst ps)
              \<and> (\<forall>k v. fmlookup m k = Some v \<longrightarrow> (k, v) \<in> set ps)
              \<and> (\<forall>k v. count_list ps (k, v) =
                    count_list (pairs (ParseQuery w (RawQuery (URL r)))) (k, v)
                      + (if fmlookup m k = Some v then 1 else 0))"
    by (intro exI [of _ ?req] exI [of _ ps]) blast
qed

theorem query_string_independent_of_range_order_witness:
  "queryParam main_params = Some main_query
   \<and> range_order main_query [''name'', ''age'']
   \<and> range_order main_query [''age'', ''name'']
   \<and> (useInvalidToken main_params
      \<or> (\<exists>resp. MyLoginAPI (stub_world True True True) Background
                  ''email_addr'' ''email_passwd'' = Inr resp))
   \<and> NewRequestWithContext (stub_world True True True) Background (httpMethod main_params)
        ''some_url'' (body main_params)
       = Inr \<lparr>Method = ''POST'', URL = some_url, Header = fmempty, Body = None,
              Ctx = Background\<rparr>
   \<and> CustomHTTPRequest (stub_world True True True) [''name'', ''age''] Background
        ''some_url'' ''email_addr'' ''email_passwd'' (Some main_params)
       = CustomHTTPRequest (stub_world True True True) [''age'', ''name''] Background
           ''some_url'' ''email_addr'' ''email_passwd'' (Some main_params)
   \<and> calls (CustomHTTPRequest (stub_world True True True) [''name'', ''age''] Background
        ''some_url'' ''email_addr'' ''email_passwd'' (Some main_params))
       = [CallMyLoginAPI Background ''email_addr'' ''email_passwd'',
          CallNewRequestWithContext Background ''POST'' ''some_url'' None,
          CallDo main_request]
   \<and> RawQuery (URL main_request) = ''age=10&name=xyz''
   \<and> (\<exists>ps. RawQuery (URL main_request) = encode_pairs ps
        \<and> sorted (map fst ps)
        \<and> (''age'', ''10'') \<in> set ps \<and> (''name'', ''xyz'') \<in> set ps)"
proof -
  let ?w = "stub_world True True True"
  let ?r = "\<lparr>Method = ''POST'', URL = some_url, Header = fmempty, Body = None,
              Ctx = Background\<rparr>"
  let ?ex = "CustomHTTPRequest ?w [''name'', ''age''] Background
          ''some_url'' ''email_addr'' ''email_passwd'' (Some main_params)"
  have q: "queryParam main_params = Some main_query"
    by (simp add: main_params_def NewOptReqParams_def)
  have o1: "range_order main_query [''name'', ''age'']"
    by (auto simp: range_order_def main_query_def)
  have o2: "range_order main_query [''age'', ''name'']"
    by (auto simp: range_order_def main_query_def)
  have auth: "useInvalidToken main_params
      \<or> (\<exists>resp. MyLoginAPI ?w Background ''email_addr'' ''email_passwd'' = Inr resp)"
    by (simp add: stub_world_def)
  have build: "NewRequestWithContext ?w Background (httpMethod main_params)
        ''some_url'' (body main_params) = Inr ?r"
    by (simp add: NewRequestWithContext_def stub_world_def main_params_def NewOptReqParams_def)
  have run: "calls ?ex = [CallMyLoginAPI Background ''email_addr'' ''email_passwd'',
          CallNewRequestWithContext Background ''POST'' ''some_url'' None,
          CallDo main_request]"
    by (simp add: main_second_call)
  have raw: "RawQuery (URL main_request) = ''age=10&name=xyz''"
    by (simp add: main_request_def)
  have age: "fmlookup main_query ''age'' = Some ''10''"
    and name: "fmlookup main_query ''name'' = Some ''xyz''"
    by (simp_all add: main_query_def)
  note t = query_string_independent_of_range_order [OF q o1 o2, of ?w Background
      "''some_url''" "''email_addr''" "''email_passwd''"]
  from t have same: "?ex = CustomHTTPRequest ?w [''age'', ''name''] Background
           ''some_url'' ''email_addr'' ''email_passwd'' (Some main_params)"
    by (rule conjunct1)
  from t auth build obtain req ps where "calls ?ex =
        (if useInvalidToken main_params then []
         else [CallMyLoginAPI Background ''email_addr'' ''email_passwd''])
          @ [CallNewRequestWithContext Background (httpMethod main_params) ''some_url''
               (body main_params), CallDo req]"
    and ps: "RawQuery (URL req) = encode_pairs ps" "sorted (map fst ps)"
      "\<forall>k v. fmlookup main_query k = Some v \<longrightarrow> (k, v) \<in> set ps"
    by blast
  with run have "req = main_request"
    by (simp split: if_splits)
  with ps age name
  have "\<exists>ps. RawQuery (URL main_request) = encode_pairs ps
        \<and> sorted (map fst ps)
        \<and> (''age'', ''10'') \<in> set ps \<and> (''name'', ''xyz'') \<in> set ps"
    by blast
  with q o1 o2 auth build same run raw show ?thesis
    by blast
qed

end
